theory Spec2Isabelle
  imports Main "HOL-Library.Word"
begin

unbundle bit_operations_syntax

section \<open>Basic types of the bootloader\<close>

text \<open>
  The target is a 32-bit ARM Cortex-M4. \<^verbatim>\<open>blt_int8u\<close>, \<^verbatim>\<open>blt_int16u\<close> and
  \<^verbatim>\<open>blt_int32u\<close> are the unsigned integers of 8, 16 and 32 bits, \<^verbatim>\<open>blt_addr\<close> is a
  32-bit address. Arithmetic on operands narrower than \<^verbatim>\<open>int\<close> is done after the
  integer promotion of C, that is on the unsigned value (\<open>unat\<close>), and wraps only
  where the result is stored back into a narrow object.
\<close>

type_synonym blt_int8u = "8 word"
type_synonym blt_int16u = "16 word"
type_synonym blt_int32u = "32 word"
type_synonym blt_addr = "32 word"

section \<open>can.c: the bus timing table and its search\<close>

record tCanBusTiming =
  tseg1 :: blt_int8u
  tseg2 :: blt_int8u

definition canTiming :: "tCanBusTiming list" where
  "canTiming =
    [\<lparr>tseg1 = 5, tseg2 = 2\<rparr>,
     \<lparr>tseg1 = 6, tseg2 = 2\<rparr>,
     \<lparr>tseg1 = 6, tseg2 = 3\<rparr>,
     \<lparr>tseg1 = 7, tseg2 = 3\<rparr>,
     \<lparr>tseg1 = 8, tseg2 = 3\<rparr>,
     \<lparr>tseg1 = 9, tseg2 = 3\<rparr>,
     \<lparr>tseg1 = 9, tseg2 = 4\<rparr>,
     \<lparr>tseg1 = 10, tseg2 = 4\<rparr>,
     \<lparr>tseg1 = 11, tseg2 = 4\<rparr>,
     \<lparr>tseg1 = 12, tseg2 = 4\<rparr>,
     \<lparr>tseg1 = 12, tseg2 = 5\<rparr>,
     \<lparr>tseg1 = 13, tseg2 = 5\<rparr>,
     \<lparr>tseg1 = 14, tseg2 = 5\<rparr>,
     \<lparr>tseg1 = 15, tseg2 = 5\<rparr>,
     \<lparr>tseg1 = 15, tseg2 = 6\<rparr>,
     \<lparr>tseg1 = 16, tseg2 = 6\<rparr>,
     \<lparr>tseg1 = 16, tseg2 = 7\<rparr>,
     \<lparr>tseg1 = 16, tseg2 = 8\<rparr>]"

text \<open>
  The number of time quanta of one bit for a table entry, as the source computes it in
  \<^verbatim>\<open>canTiming[cnt].tseg1+canTiming[cnt].tseg2+1\<close>: both fields are promoted to
  \<^verbatim>\<open>int\<close>, so the sum is exact.
\<close>

definition total_tq :: "tCanBusTiming \<Rightarrow> nat" where
  "total_tq e = unat (tseg1 e) + unat (tseg2 e) + 1"

text \<open>
  The three objects the caller passes by pointer to \<^verbatim>\<open>CanGetSpeedConfig\<close>.
\<close>

record speed_config =
  prescaler :: blt_int16u
  cfg_tseg1 :: blt_int8u
  cfg_tseg2 :: blt_int8u

text \<open>
  \<^verbatim>\<open>CanGetSpeedConfig\<close>. The macro \<^verbatim>\<open>BOOT_CPU_SYSTEM_SPEED_KHZ\<close> comes from the
  configuration header of the application, outside can.c; it is the first
  parameter, a non-negative integer constant. The divisor
  \<^verbatim>\<open>baud*(tseg1+tseg2+1)\<close> is at most \<open>65535 * 511\<close> and the arithmetic is exact. A
  zero divisor (a zero \<^verbatim>\<open>baud\<close>) is undefined behaviour in C: the model stops with
  \<open>None\<close> there. The quotient is stored through the 16-bit pointer
  \<^verbatim>\<open>prescaler\<close> first, which truncates it, and the range test reads the stored
  value. The loop over \<^verbatim>\<open>cnt\<close> is the recursion over the table.
\<close>

fun CanGetSpeedConfig_loop ::
  "nat \<Rightarrow> blt_int16u \<Rightarrow> tCanBusTiming list \<Rightarrow> speed_config \<Rightarrow> (bool \<times> speed_config) option"
where
  "CanGetSpeedConfig_loop clk baud [] out = Some (False, out)"
| "CanGetSpeedConfig_loop clk baud (e # es) out =
     (if unat baud * total_tq e = 0 then None
      else if (clk div 2) mod (unat baud * total_tq e) = 0 then
        (let out1 = out\<lparr>prescaler := of_nat ((clk div 2) div (unat baud * total_tq e))\<rparr>
         in if prescaler out1 > 0 \<and> prescaler out1 \<le> 1024
            then Some (True, out1\<lparr>cfg_tseg1 := tseg1 e, cfg_tseg2 := tseg2 e\<rparr>)
            else CanGetSpeedConfig_loop clk baud es out1)
      else CanGetSpeedConfig_loop clk baud es out)"

definition CanGetSpeedConfig ::
  "nat \<Rightarrow> blt_int16u \<Rightarrow> speed_config \<Rightarrow> (bool \<times> speed_config) option"
where
  "CanGetSpeedConfig clk baud out = CanGetSpeedConfig_loop clk baud canTiming out"

text \<open>
  The condition of the specification on a table entry, in its words: the total number
  of quanta times the rate divides half the clock, and the quotient, the prescaler,
  lies between 1 and 1024. It is stated over the natural numbers, with no 16-bit
  store in between.
\<close>

definition spec_entry_ok :: "nat \<Rightarrow> nat \<Rightarrow> tCanBusTiming \<Rightarrow> bool" where
  "spec_entry_ok clk baud e \<longleftrightarrow>
     (clk div 2) mod (baud * total_tq e) = 0
     \<and> 1 \<le> (clk div 2) div (baud * total_tq e)
     \<and> (clk div 2) div (baud * total_tq e) \<le> 1024"

section \<open>can.c: receiving a packet\<close>

text \<open>
  The macros \<^verbatim>\<open>BOOT_COM_CAN_RX_MSG_ID\<close>, \<^verbatim>\<open>CAN_ID_STD\<close> and \<^verbatim>\<open>CAN_ID_EXT\<close>
  come from the configuration header and from the header of the vendor library,
  outside can.c; they are parameters.
\<close>

record can_config =
  BOOT_COM_CAN_RX_MSG_ID :: blt_int32u
  CAN_ID_STD :: blt_int32u
  CAN_ID_EXT :: blt_int32u

text \<open>
  The fields of the receive message buffer that \<^verbatim>\<open>CanReceivePacket\<close> reads.
  \<open>Data\<close> is declared as an array of 8 bytes; \<open>Data msg i\<close> is the byte at offset
  \<open>i\<close> from its start, which for \<open>i\<close> from 8 on is a byte of what follows the
  array in memory.
\<close>

record CanRxMsgTypeDef =
  StdId :: blt_int32u
  ExtId :: blt_int32u
  IDE :: blt_int32u
  DLC :: blt_int32u
  Data :: "nat \<Rightarrow> blt_int8u"

text \<open>
  The copy loop of \<^verbatim>\<open>CanReceivePacket\<close>. The buffer \<^verbatim>\<open>data\<close> of the caller is
  given by its bytes, \<open>data i\<close> at offset \<open>i\<close>; the loop has no bound but
  \<^verbatim>\<open>DLC\<close>. \<^verbatim>\<open>byteIdx\<close> is an 8-bit counter; in the comparison with the 32-bit
  \<^verbatim>\<open>DLC\<close> it is converted to 32 bits, and \<^verbatim>\<open>byteIdx++\<close> wraps from 255 to 0, so
  that the loop does not end for a \<^verbatim>\<open>DLC\<close> above 255: the result is \<open>None\<close>
  there.
\<close>

partial_function (option) CanReceivePacket_copy ::
  "blt_int8u \<Rightarrow> CanRxMsgTypeDef \<Rightarrow> (nat \<Rightarrow> blt_int8u) \<Rightarrow> (nat \<Rightarrow> blt_int8u) option"
where
  "CanReceivePacket_copy byteIdx msg data =
     (if (ucast byteIdx :: blt_int32u) < DLC msg
      then CanReceivePacket_copy (byteIdx + 1) msg
             (data(unat byteIdx := Data msg (unat byteIdx)))
      else Some data)"

text \<open>
  \<^verbatim>\<open>CanReceivePacket\<close>. The call \<^verbatim>\<open>HAL_CAN_Receive(&canHandle, CAN_FIFO0, 0)\<close>
  belongs to the vendor library: its outcome is the argument \<open>rx\<close>, \<open>None\<close> when it
  does not return \<^verbatim>\<open>HAL_OK\<close> and \<open>Some msg\<close> when it does and has filled the
  receive message buffer with \<open>msg\<close>. The buffers \<^verbatim>\<open>data\<close> and \<^verbatim>\<open>len\<close> of the
  caller are passed in and returned with the result. The store \<^verbatim>\<open>*len = DLC\<close>
  keeps the low 8 bits. The result is \<open>None\<close> when the function does not return.
\<close>

definition CanReceivePacket ::
  "can_config \<Rightarrow> CanRxMsgTypeDef option \<Rightarrow> (nat \<Rightarrow> blt_int8u) \<Rightarrow> blt_int8u
     \<Rightarrow> (bool \<times> (nat \<Rightarrow> blt_int8u) \<times> blt_int8u) option"
where
  "CanReceivePacket cfg rx data len =
     (case rx of
        None \<Rightarrow> Some (False, data, len)
      | Some msg \<Rightarrow>
          (let rxMsgId = BOOT_COM_CAN_RX_MSG_ID cfg;
               packetIdMatches =
                 (if rxMsgId AND 0x80000000 = 0
                  then StdId msg = rxMsgId \<and> IDE msg = CAN_ID_STD cfg
                  else ExtId msg = (rxMsgId AND NOT 0x80000000) \<and> IDE msg = CAN_ID_EXT cfg)
           in if packetIdMatches
              then (case CanReceivePacket_copy 0 msg data of
                      None \<Rightarrow> None
                    | Some data' \<Rightarrow> Some (True, data', ucast (DLC msg)))
              else Some (False, data, len)))"

text \<open>
  The receive filter in the words of the specification: the configured identifier
  selects the extended, 29-bit width by its reserved high bit \<open>0x80000000\<close> (bit 31)
  and the standard, 11-bit width otherwise; the identifier proper is the configured
  value without that bit. A frame matches when it has the selected width and its
  identifier of that width equals the identifier of the filter.
\<close>

definition filter_extended :: "can_config \<Rightarrow> bool" where
  "filter_extended cfg = bit (BOOT_COM_CAN_RX_MSG_ID cfg) 31"

definition filter_identifier :: "can_config \<Rightarrow> blt_int32u" where
  "filter_identifier cfg = take_bit 31 (BOOT_COM_CAN_RX_MSG_ID cfg)"

definition frame_matches_filter :: "can_config \<Rightarrow> CanRxMsgTypeDef \<Rightarrow> bool" where
  "frame_matches_filter cfg msg =
     (if filter_extended cfg
      then IDE msg = CAN_ID_EXT cfg \<and> ExtId msg = filter_identifier cfg
      else IDE msg = CAN_ID_STD cfg \<and> StdId msg = filter_identifier cfg)"

section \<open>cpu.c: starting the user program\<close>

text \<open>
  The two configuration macros that guard parts of \<^verbatim>\<open>CpuStartUserProgram\<close> come
  from the configuration header of the application, outside cpu.c; they are
  parameters.
\<close>

record cpu_config =
  BOOT_CPU_USER_PROGRAM_START_HOOK :: nat
  BOOT_COM_ENABLE :: nat

text \<open>
  What the functions of other modules return when \<^verbatim>\<open>CpuStartUserProgram\<close> calls
  them, and the 32-bit word that memory holds at each address.
\<close>

record cpu_env =
  NvmVerifyChecksum :: bool
  CpuUserProgramStartHook :: bool
  NvmGetUserProgBaseAddress :: blt_addr
  mem_word :: "blt_addr \<Rightarrow> blt_addr"

text \<open>
  What \<^verbatim>\<open>CpuStartUserProgram\<close> does to the world outside its locals, in the order in
  which it does it: the calls of functions of other modules, the write to the
  vector table offset register and the call through the pointer to the reset handler
  of the user program.
\<close>

datatype cpu_event =
    Call_NvmVerifyChecksum
  | Call_CpuUserProgramStartHook
  | Call_ComFree
  | Call_TimerReset
  | Call_NvmGetUserProgBaseAddress
  | Write_SCB_VTOR blt_int32u
  | Call_CpuIrqEnable
  | Call_pProgResetHandler blt_addr

text \<open>
  \<open>Returned\<close>: the function came back to its caller. \<open>Transferred a\<close>: it called
  the code at address \<open>a\<close>, the reset handler of the user program, which takes over
  the processor; what that code does is outside the bootloader.
\<close>

datatype cpu_outcome = Returned | Transferred blt_addr

definition CPU_USER_PROGRAM_STARTADDR_PTR :: "cpu_env \<Rightarrow> blt_addr" where
  "CPU_USER_PROGRAM_STARTADDR_PTR env = NvmGetUserProgBaseAddress env + 0x00000004"

definition CPU_USER_PROGRAM_VECTABLE_OFFSET :: "cpu_env \<Rightarrow> blt_int32u" where
  "CPU_USER_PROGRAM_VECTABLE_OFFSET env = NvmGetUserProgBaseAddress env"

definition CpuStartUserProgram :: "cpu_config \<Rightarrow> cpu_env \<Rightarrow> cpu_outcome \<times> cpu_event list" where
  "CpuStartUserProgram cfg env =
     (let tr1 = [Call_NvmVerifyChecksum] in
      if NvmVerifyChecksum env = False then (Returned, tr1)
      else
        let tr2 = (if BOOT_CPU_USER_PROGRAM_START_HOOK cfg > 0
                   then tr1 @ [Call_CpuUserProgramStartHook] else tr1) in
        if BOOT_CPU_USER_PROGRAM_START_HOOK cfg > 0 \<and> CpuUserProgramStartHook env = False
        then (Returned, tr2)
        else
          let tr3 = (if BOOT_COM_ENABLE cfg > 0 then tr2 @ [Call_ComFree] else tr2);
              tr4 = tr3 @ [Call_TimerReset];
              tr5 = tr4 @ [Call_NvmGetUserProgBaseAddress,
                           Write_SCB_VTOR (CPU_USER_PROGRAM_VECTABLE_OFFSET env AND 0x1FFFFF80)];
              tr6 = tr5 @ [Call_NvmGetUserProgBaseAddress];
              pProgResetHandler = mem_word env (CPU_USER_PROGRAM_STARTADDR_PTR env);
              tr7 = tr6 @ [Call_CpuIrqEnable]
          in (Transferred pProgResetHandler, tr7 @ [Call_pProgResetHandler pProgResetHandler]))"

text \<open>
  The side effects the specification lists for the hand-off: the release of the
  communication interface, the reset of the timer, the write to the vector table base
  register, the enabling of the interrupts and the transfer of control. The three
  other events are queries.
\<close>

fun is_handoff_effect :: "cpu_event \<Rightarrow> bool" where
  "is_handoff_effect Call_ComFree = True"
| "is_handoff_effect Call_TimerReset = True"
| "is_handoff_effect (Write_SCB_VTOR v) = True"
| "is_handoff_effect Call_CpuIrqEnable = True"
| "is_handoff_effect (Call_pProgResetHandler a) = True"
| "is_handoff_effect Call_NvmVerifyChecksum = False"
| "is_handoff_effect Call_CpuUserProgramStartHook = False"
| "is_handoff_effect Call_NvmGetUserProgBaseAddress = False"

definition handoff_effects :: "cpu_event list \<Rightarrow> cpu_event list" where
  "handoff_effects tr = filter is_handoff_effect tr"

text \<open>
  The mask of the specification for the vector table base: the lowest 7 bits zero,
  inside a window of 21 bits.
\<close>

definition spec_vtor_mask :: blt_int32u where
  "spec_vtor_mask = mask 21 AND NOT (mask 7)"

section \<open>cpu.c: copying and setting memory\<close>

text \<open>
  Memory is a store of bytes by 32-bit address. \<^verbatim>\<open>CopService\<close> belongs to the
  watchdog module; all that is kept of it is the number of times it has been called.
\<close>

record mem_state =
  mem :: "blt_addr \<Rightarrow> blt_int8u"
  CopService_calls :: nat

definition CopService :: "mem_state \<Rightarrow> mem_state" where
  "CopService s = s\<lparr>CopService_calls := CopService_calls s + 1\<rparr>"

text \<open>
  The loop \<^verbatim>\<open>while (len-- > 0)\<close> tests the value of \<^verbatim>\<open>len\<close> before the decrement
  and enters the body with the decremented value. The pointers advance by one byte,
  modulo the 32-bit address space.
\<close>

function CpuMemCopy_loop :: "blt_addr \<Rightarrow> blt_addr \<Rightarrow> blt_int16u \<Rightarrow> mem_state \<Rightarrow> mem_state" where
  "CpuMemCopy_loop to from len s =
     (if len > 0
      then CpuMemCopy_loop (to + 1) (from + 1) (len - 1)
             (CopService (s\<lparr>mem := (mem s)(to := mem s from)\<rparr>))
      else s)"
  by pat_completeness auto
termination
  by (relation "measure (\<lambda>(to, from, len, s). unat len)")
     (auto simp: unat_minus_one word_gt_0 unat_gt_0)

declare CpuMemCopy_loop.simps [simp del]

definition CpuMemCopy :: "blt_addr \<Rightarrow> blt_addr \<Rightarrow> blt_int16u \<Rightarrow> mem_state \<Rightarrow> mem_state" where
  "CpuMemCopy dest src len s = CpuMemCopy_loop dest src len s"

function CpuMemSet_loop :: "blt_addr \<Rightarrow> blt_int8u \<Rightarrow> blt_int16u \<Rightarrow> mem_state \<Rightarrow> mem_state" where
  "CpuMemSet_loop to val len s =
     (if len > 0
      then CpuMemSet_loop (to + 1) val (len - 1)
             (CopService (s\<lparr>mem := (mem s)(to := val)\<rparr>))
      else s)"
  by pat_completeness auto
termination
  by (relation "measure (\<lambda>(to, val, len, s). unat len)")
     (auto simp: unat_minus_one word_gt_0 unat_gt_0)

declare CpuMemSet_loop.simps [simp del]

definition CpuMemSet :: "blt_addr \<Rightarrow> blt_int8u \<Rightarrow> blt_int16u \<Rightarrow> mem_state \<Rightarrow> mem_state" where
  "CpuMemSet dest val len s = CpuMemSet_loop dest val len s"

section \<open>The timing table\<close>

lemma total_tq_canTiming:
  "map total_tq canTiming = [8, 9, 10, 11, 12, 13, 14, 15, 16, 17, 18, 19, 20, 21, 22, 23, 24, 25]"
  by (simp add: canTiming_def total_tq_def)

text \<open>
  Claim C8. Every entry of the constant bus timing table has its first time segment
  between 1 and 16 and its second between 1 and 8, and the entries are listed by
  strictly ascending total number of time quanta (first segment + second segment + 1).
\<close>

theorem canTiming_ranges_and_order:
  "(\<forall>e \<in> set canTiming. 1 \<le> tseg1 e \<and> tseg1 e \<le> 16 \<and> 1 \<le> tseg2 e \<and> tseg2 e \<le> 8)
   \<and> sorted_wrt (<) (map total_tq canTiming)"
proof
  show "\<forall>e \<in> set canTiming. 1 \<le> tseg1 e \<and> tseg1 e \<le> 16 \<and> 1 \<le> tseg2 e \<and> tseg2 e \<le> 8"
    by (simp add: canTiming_def)
  show "sorted_wrt (<) (map total_tq canTiming)"
    by (simp add: total_tq_canTiming)
qed

theorem canTiming_ranges_and_order_witness:
  "\<lparr>tseg1 = 16, tseg2 = 8\<rparr> \<in> set canTiming
   \<and> (1::blt_int8u) \<le> 16 \<and> (16::blt_int8u) \<le> 16 \<and> (1::blt_int8u) \<le> 8 \<and> (8::blt_int8u) \<le> 8"
proof -
  have m: "\<lparr>tseg1 = 16, tseg2 = 8\<rparr> \<in> set canTiming"
    by (simp add: canTiming_def)
  from canTiming_ranges_and_order m
  have "1 \<le> tseg1 \<lparr>tseg1 = 16, tseg2 = 8\<rparr> \<and> tseg1 \<lparr>tseg1 = 16, tseg2 = 8\<rparr> \<le> 16
        \<and> 1 \<le> tseg2 \<lparr>tseg1 = 16, tseg2 = 8\<rparr> \<and> tseg2 \<lparr>tseg1 = 16, tseg2 = 8\<rparr> \<le> 8"
    by blast
  with m show ?thesis by simp
qed

section \<open>The search for a bus timing\<close>

lemma prescaler_test_nat:
  assumes "q < 65536"
  shows "((of_nat q :: blt_int16u) > 0 \<and> (of_nat q :: blt_int16u) \<le> 1024)
         \<longleftrightarrow> (1 \<le> q \<and> q \<le> 1024)"
proof -
  have u: "unat (of_nat q :: blt_int16u) = q"
    using assms by (simp add: unat_of_nat)
  have "((of_nat q :: blt_int16u) > 0) \<longleftrightarrow> 0 < q"
    using u by (simp add: word_less_nat_alt)
  moreover have "((of_nat q :: blt_int16u) \<le> 1024) \<longleftrightarrow> q \<le> 1024"
    using u by (simp add: word_le_nat_alt)
  ultimately show ?thesis by auto
qed

lemma spec_entry_ok_divisor: "spec_entry_ok clk b e \<Longrightarrow> b * total_tq e \<noteq> 0"
proof
  assume ok: "spec_entry_ok clk b e" and z: "b * total_tq e = 0"
  from ok have "1 \<le> (clk div 2) div (b * total_tq e)" by (simp add: spec_entry_ok_def)
  moreover from z have "(clk div 2) div (b * total_tq e) = 0" by (simp only: div_by_0)
  ultimately show False by simp
qed

lemma spec_entry_ok_bound:
  assumes "spec_entry_ok clk b e" and "total_tq e \<le> 63"
  shows "(clk div 2) div b \<le> 64512"
proof -
  let ?H = "clk div 2" and ?d = "b * total_tq e"
  from assms(1) have m: "?H mod ?d = 0" and q: "?H div ?d \<le> 1024"
    by (simp_all add: spec_entry_ok_def)
  have "?H = ?d * (?H div ?d)" using m by (metis mult_div_mod_eq add.right_neutral)
  also have "\<dots> \<le> ?d * 1024" using q by simp
  also have "\<dots> \<le> b * 63 * 1024" using assms(2) by simp
  finally have "?H \<le> b * 64512" by simp
  then have "?H div b \<le> (b * 64512) div b" by (rule div_le_mono)
  also have "\<dots> \<le> 64512" by (cases "b = 0") simp_all
  finally show ?thesis .
qed

lemma quotient_le: "(H::nat) div (b * total_tq x) \<le> H div b"
  by (metis div_mult2_eq div_le_dividend)

lemma total_tq_pos: "total_tq e > 0"
  by (simp add: total_tq_def)

lemma CanGetSpeedConfig_loop_first:
  assumes "find (spec_entry_ok clk (unat baud)) es = Some e"
    and "\<forall>x \<in> set es. total_tq x \<le> 63"
  shows "CanGetSpeedConfig_loop clk baud es out =
           Some (True, out\<lparr>prescaler := of_nat ((clk div 2) div (unat baud * total_tq e)),
                            cfg_tseg1 := tseg1 e, cfg_tseg2 := tseg2 e\<rparr>)"
  using assms
proof (induction es arbitrary: out)
  case Nil
  then show ?case by simp
next
  case (Cons x xs)
  from Cons.prems(1) have ein: "e \<in> set (x # xs)" and eok: "spec_entry_ok clk (unat baud) e"
    by (auto simp: find_Some_iff in_set_conv_nth split: if_splits)
  from Cons.prems(2) ein have "total_tq e \<le> 63" by blast
  with eok have hb: "(clk div 2) div unat baud \<le> 64512" by (rule spec_entry_ok_bound)
  from eok have b0: "unat baud \<noteq> 0" using spec_entry_ok_divisor by fastforce
  have d0: "unat baud * total_tq x \<noteq> 0" using b0 total_tq_pos[of x] by simp
  have qx: "(clk div 2) div (unat baud * total_tq x) < 65536"
    using quotient_le[of "clk div 2" "unat baud" x] hb by simp
  note tst = prescaler_test_nat[OF qx]
  show ?case
  proof (cases "spec_entry_ok clk (unat baud) x")
    case True
    with Cons.prems(1) have ex: "e = x" by simp
    from True have m: "(clk div 2) mod (unat baud * total_tq x) = 0"
      and r: "1 \<le> (clk div 2) div (unat baud * total_tq x)
              \<and> (clk div 2) div (unat baud * total_tq x) \<le> 1024"
      by (simp_all add: spec_entry_ok_def)
    from r tst have t: "(of_nat ((clk div 2) div (unat baud * total_tq x)) :: blt_int16u) > 0
         \<and> (of_nat ((clk div 2) div (unat baud * total_tq x)) :: blt_int16u) \<le> 1024"
      by blast
    from m t d0 show ?thesis
      unfolding ex by (simp add: Let_def)
  next
    case False
    with Cons.prems(1) have f: "find (spec_entry_ok clk (unat baud)) xs = Some e" by simp
    from Cons.prems(2) have b: "\<forall>x \<in> set xs. total_tq x \<le> 63" by simp
    note IH = Cons.IH[OF f b]
    show ?thesis
    proof (cases "(clk div 2) mod (unat baud * total_tq x) = 0")
      case True
      with False tst
      have "\<not> ((of_nat ((clk div 2) div (unat baud * total_tq x)) :: blt_int16u) > 0
         \<and> (of_nat ((clk div 2) div (unat baud * total_tq x)) :: blt_int16u) \<le> 1024)"
        by (simp add: spec_entry_ok_def)
      with True d0 show ?thesis
        by (auto simp: Let_def IH)
    next
      case False
      with d0 show ?thesis by (simp add: IH)
    qed
  qed
qed

lemma canTiming_tq_le: "\<forall>x \<in> set canTiming. total_tq x \<le> 63"
  by (simp add: canTiming_def total_tq_def)

lemma canTiming_tq_ge: "\<forall>x \<in> set canTiming. 8 \<le> total_tq x"
  by (simp add: canTiming_def total_tq_def)

text \<open>
  Claim C3. For every rate and clock for which some entry of the timing table satisfies
  both conditions of the specification (the divisor \<open>baud * (tseg1 + tseg2 + 1)\<close>
  divides half the clock, and the quotient lies between 1 and 1024),
  \<^verbatim>\<open>CanGetSpeedConfig\<close> returns true and delivers the prescaler and the two
  segments of the first such entry in table order (\<open>find\<close> returns the first
  element of a list that satisfies a condition). The result is a function of the rate
  and the clock alone: it does not depend on what the three outputs held before. The
  16-bit store of the prescaler loses nothing here.
\<close>

theorem CanGetSpeedConfig_first_match:
  assumes "\<exists>e \<in> set canTiming. spec_entry_ok clk (unat baud) e"
  shows "\<exists>e. find (spec_entry_ok clk (unat baud)) canTiming = Some e
           \<and> CanGetSpeedConfig clk baud out =
               Some (True, \<lparr>prescaler = of_nat ((clk div 2) div (unat baud * total_tq e)),
                            cfg_tseg1 = tseg1 e, cfg_tseg2 = tseg2 e\<rparr>)
           \<and> unat (of_nat ((clk div 2) div (unat baud * total_tq e)) :: blt_int16u)
               = (clk div 2) div (unat baud * total_tq e)"
proof -
  from assms obtain e where f: "find (spec_entry_ok clk (unat baud)) canTiming = Some e"
    by (cases "find (spec_entry_ok clk (unat baud)) canTiming") (auto simp: find_None_iff)
  then have ok: "spec_entry_ok clk (unat baud) e"
    by (auto simp: find_Some_iff)
  then have "(clk div 2) div (unat baud * total_tq e) \<le> 1024"
    by (simp add: spec_entry_ok_def)
  then have u: "unat (of_nat ((clk div 2) div (unat baud * total_tq e)) :: blt_int16u)
               = (clk div 2) div (unat baud * total_tq e)"
    by (simp add: unat_of_nat)
  have "CanGetSpeedConfig clk baud out =
          Some (True, out\<lparr>prescaler := of_nat ((clk div 2) div (unat baud * total_tq e)),
                           cfg_tseg1 := tseg1 e, cfg_tseg2 := tseg2 e\<rparr>)"
    unfolding CanGetSpeedConfig_def
    by (rule CanGetSpeedConfig_loop_first[OF f canTiming_tq_le])
  then have "CanGetSpeedConfig clk baud out =
               Some (True, \<lparr>prescaler = of_nat ((clk div 2) div (unat baud * total_tq e)),
                            cfg_tseg1 = tseg1 e, cfg_tseg2 = tseg2 e\<rparr>)"
    by (cases out) simp
  with f u show ?thesis by blast
qed

lemma find_72000_500:
  "find (spec_entry_ok 72000 (unat (500 :: blt_int16u))) canTiming = Some \<lparr>tseg1 = 5, tseg2 = 2\<rparr>"
  by (simp add: canTiming_def spec_entry_ok_def total_tq_def)

theorem CanGetSpeedConfig_first_match_witness:
  "(\<exists>e \<in> set canTiming. spec_entry_ok 72000 (unat (500 :: blt_int16u)) e)
   \<and> CanGetSpeedConfig 72000 500 \<lparr>prescaler = 0, cfg_tseg1 = 0, cfg_tseg2 = 0\<rparr>
       = Some (True, \<lparr>prescaler = 9, cfg_tseg1 = 5, cfg_tseg2 = 2\<rparr>)"
proof -
  have h: "\<exists>e \<in> set canTiming. spec_entry_ok 72000 (unat (500 :: blt_int16u)) e"
    by (rule bexI[of _ "\<lparr>tseg1 = 5, tseg2 = 2\<rparr>"])
       (simp_all add: canTiming_def spec_entry_ok_def total_tq_def)
  from CanGetSpeedConfig_first_match[OF h, of "\<lparr>prescaler = 0, cfg_tseg1 = 0, cfg_tseg2 = 0\<rparr>"]
  obtain e where "find (spec_entry_ok 72000 (unat (500 :: blt_int16u))) canTiming = Some e"
    and r: "CanGetSpeedConfig 72000 500 \<lparr>prescaler = 0, cfg_tseg1 = 0, cfg_tseg2 = 0\<rparr> =
               Some (True, \<lparr>prescaler = of_nat ((72000 div 2) div (unat (500 :: blt_int16u) * total_tq e)),
                            cfg_tseg1 = tseg1 e, cfg_tseg2 = tseg2 e\<rparr>)"
    by blast
  then have "e = \<lparr>tseg1 = 5, tseg2 = 2\<rparr>" using find_72000_500 by simp
  with r have "CanGetSpeedConfig 72000 500 \<lparr>prescaler = 0, cfg_tseg1 = 0, cfg_tseg2 = 0\<rparr>
       = Some (True, \<lparr>prescaler = 9, cfg_tseg1 = 5, cfg_tseg2 = 2\<rparr>)"
    by (simp add: total_tq_def)
  with h show ?thesis by blast
qed

lemma CanGetSpeedConfig_loop_none:
  assumes "unat baud \<noteq> 0"
    and "\<forall>x \<in> set es. (clk div 2) div (unat baud * total_tq x) < 65536"
    and "\<forall>x \<in> set es. \<not> spec_entry_ok clk (unat baud) x"
  shows "\<exists>p. CanGetSpeedConfig_loop clk baud es out = Some (False, out\<lparr>prescaler := p\<rparr>)
           \<and> (p = prescaler out
               \<or> (\<exists>e \<in> set es. (clk div 2) mod (unat baud * total_tq e) = 0
                     \<and> p = of_nat ((clk div 2) div (unat baud * total_tq e))))"
  using assms(2,3)
proof (induction es arbitrary: out)
  case Nil
  have "out = out\<lparr>prescaler := prescaler out\<rparr>" by simp
  then show ?case by (metis CanGetSpeedConfig_loop.simps(1) )
next
  case (Cons x xs)
  let ?d = "unat baud * total_tq x"
  let ?q = "(clk div 2) div ?d"
  have d0: "?d \<noteq> 0" using assms(1) total_tq_pos[of x] by simp
  from Cons.prems(1) have qx: "?q < 65536" by simp
  note tst = prescaler_test_nat[OF qx]
  from Cons.prems have p1: "\<forall>x \<in> set xs. (clk div 2) div (unat baud * total_tq x) < 65536"
    and p2: "\<forall>x \<in> set xs. \<not> spec_entry_ok clk (unat baud) x"
    and nx: "\<not> spec_entry_ok clk (unat baud) x"
    by simp_all
  show ?case
  proof (cases "(clk div 2) mod ?d = 0")
    case True
    with nx tst have nt: "\<not> ((of_nat ?q :: blt_int16u) > 0 \<and> (of_nat ?q :: blt_int16u) \<le> 1024)"
      by (simp add: spec_entry_ok_def)
    let ?out1 = "out\<lparr>prescaler := of_nat ?q\<rparr>"
    from True d0 nt have step: "CanGetSpeedConfig_loop clk baud (x # xs) out
        = CanGetSpeedConfig_loop clk baud xs ?out1"
      by (auto simp: Let_def)
    from Cons.IH[OF p1 p2, of ?out1] obtain p where
      r: "CanGetSpeedConfig_loop clk baud xs ?out1 = Some (False, ?out1\<lparr>prescaler := p\<rparr>)"
      and c: "p = prescaler ?out1
               \<or> (\<exists>e \<in> set xs. (clk div 2) mod (unat baud * total_tq e) = 0
                     \<and> p = of_nat ((clk div 2) div (unat baud * total_tq e)))"
      by (elim exE conjE) simp
    have "?out1\<lparr>prescaler := p\<rparr> = out\<lparr>prescaler := p\<rparr>" by simp
    with step r have r': "CanGetSpeedConfig_loop clk baud (x # xs) out = Some (False, out\<lparr>prescaler := p\<rparr>)"
      by simp
    from c True have ex: "\<exists>e \<in> set (x # xs). (clk div 2) mod (unat baud * total_tq e) = 0
                     \<and> p = of_nat ((clk div 2) div (unat baud * total_tq e))"
      by auto
    show ?thesis
      by (rule exI[of _ p], rule conjI, rule r', rule disjI2, rule ex)
  next
    case False
    with d0 have step: "CanGetSpeedConfig_loop clk baud (x # xs) out
        = CanGetSpeedConfig_loop clk baud xs out"
      by simp
    from Cons.IH[OF p1 p2, of out] obtain p where
      r: "CanGetSpeedConfig_loop clk baud xs out = Some (False, out\<lparr>prescaler := p\<rparr>)"
      and c: "p = prescaler out
               \<or> (\<exists>e \<in> set xs. (clk div 2) mod (unat baud * total_tq e) = 0
                     \<and> p = of_nat ((clk div 2) div (unat baud * total_tq e)))"
      by (elim exE conjE) simp
    from step r have r': "CanGetSpeedConfig_loop clk baud (x # xs) out = Some (False, out\<lparr>prescaler := p\<rparr>)"
      by simp
    from c have c': "p = prescaler out
               \<or> (\<exists>e \<in> set (x # xs). (clk div 2) mod (unat baud * total_tq e) = 0
                     \<and> p = of_nat ((clk div 2) div (unat baud * total_tq e)))"
      by auto
    show ?thesis
      by (rule exI[of _ p], rule conjI, rule r', rule c')
  qed
qed

lemma canTiming_quotient_fits:
  assumes "unat baud \<noteq> 0" and "(clk div 2) div (unat baud * 8) < 65536"
  shows "\<forall>x \<in> set canTiming. (clk div 2) div (unat baud * total_tq x) < 65536"
proof
  fix x assume "x \<in> set canTiming"
  with canTiming_tq_ge have "8 \<le> total_tq x" by blast
  then have "unat baud * 8 \<le> unat baud * total_tq x" by simp
  moreover have "0 < unat baud * 8" using assms(1) by simp
  ultimately have "(clk div 2) div (unat baud * total_tq x) \<le> (clk div 2) div (unat baud * 8)"
    by (rule div_le_mono2[rotated])
  with assms(2) show "(clk div 2) div (unat baud * total_tq x) < 65536" by simp
qed

text \<open>
  Claim C4, amended. For every rate other than 0 and every clock whose largest
  candidate quotient, the one of the first table entry, \<open>(clock / 2) / (baud * 8)\<close>,
  fits the 16-bit prescaler: if no table entry satisfies both conditions of the
  specification, \<^verbatim>\<open>CanGetSpeedConfig\<close> returns false and leaves the two segment
  outputs as they were. The prescaler output is as it was, or holds the quotient of a
  table entry that passed the divisibility test and failed the range test.
\<close>

theorem CanGetSpeedConfig_no_match:
  assumes "baud \<noteq> 0"
    and "(clk div 2) div (unat baud * 8) < 65536"
    and "\<forall>e \<in> set canTiming. \<not> spec_entry_ok clk (unat baud) e"
  shows "\<exists>p. CanGetSpeedConfig clk baud out = Some (False, out\<lparr>prescaler := p\<rparr>)
           \<and> (p = prescaler out
               \<or> (\<exists>e \<in> set canTiming. (clk div 2) mod (unat baud * total_tq e) = 0
                     \<and> p = of_nat ((clk div 2) div (unat baud * total_tq e))))"
proof -
  from assms(1) have b: "unat baud \<noteq> 0" by (simp add: unat_eq_0)
  show ?thesis
    unfolding CanGetSpeedConfig_def
    by (rule CanGetSpeedConfig_loop_none[OF b canTiming_quotient_fits[OF b assms(2)] assms(3)])
qed

theorem CanGetSpeedConfig_no_match_witness:
  "(1 :: blt_int16u) \<noteq> 0
   \<and> (72000 div 2) div (unat (1 :: blt_int16u) * 8) < (65536 :: nat)
   \<and> \<not> (\<exists>e \<in> set canTiming. spec_entry_ok 72000 (unat (1 :: blt_int16u)) e)
   \<and> (\<exists>p. CanGetSpeedConfig 72000 1 \<lparr>prescaler = 0, cfg_tseg1 = 0, cfg_tseg2 = 0\<rparr>
             = Some (False, \<lparr>prescaler = p, cfg_tseg1 = 0, cfg_tseg2 = 0\<rparr>))"
proof -
  have h1: "(1 :: blt_int16u) \<noteq> 0" by simp
  have h2: "(72000 div 2) div (unat (1 :: blt_int16u) * 8) < (65536 :: nat)" by simp
  have h3: "\<forall>e \<in> set canTiming. \<not> spec_entry_ok 72000 (unat (1 :: blt_int16u)) e"
    by (simp add: canTiming_def spec_entry_ok_def total_tq_def)
  from CanGetSpeedConfig_no_match[OF h1 h2 h3, of "\<lparr>prescaler = 0, cfg_tseg1 = 0, cfg_tseg2 = 0\<rparr>"]
  have "\<exists>p. CanGetSpeedConfig 72000 1 \<lparr>prescaler = 0, cfg_tseg1 = 0, cfg_tseg2 = 0\<rparr>
             = Some (False, \<lparr>prescaler = p, cfg_tseg1 = 0, cfg_tseg2 = 0\<rparr>)"
    by auto
  with h1 h2 h3 show ?thesis by blast
qed

text \<open>
  The claim as it was stated fails. At 1 kbit/s and a clock of 72000 kHz no entry
  satisfies both conditions and the function returns false, but the prescaler output
  has been overwritten with 1440, the quotient of the last entry, which passed the
  divisibility test only. At 1 kbit/s and a clock of 1048592 kHz no entry satisfies
  both conditions either (the only quotient is 65537), but the 16-bit store turns
  65537 into 1 and the function returns true. At a rate of 0 the first division has
  a zero divisor.
\<close>

theorem CanGetSpeedConfig_no_match_counterexample:
  "find (spec_entry_ok 72000 (unat (1 :: blt_int16u))) canTiming = None
   \<and> CanGetSpeedConfig 72000 1 \<lparr>prescaler = 0, cfg_tseg1 = 0, cfg_tseg2 = 0\<rparr>
       = Some (False, \<lparr>prescaler = 1440, cfg_tseg1 = 0, cfg_tseg2 = 0\<rparr>)
   \<and> find (spec_entry_ok 1048592 (unat (1 :: blt_int16u))) canTiming = None
   \<and> CanGetSpeedConfig 1048592 1 \<lparr>prescaler = 0, cfg_tseg1 = 0, cfg_tseg2 = 0\<rparr>
       = Some (True, \<lparr>prescaler = 1, cfg_tseg1 = 5, cfg_tseg2 = 2\<rparr>)
   \<and> find (spec_entry_ok 72000 (unat (0 :: blt_int16u))) canTiming = None
   \<and> CanGetSpeedConfig 72000 0 \<lparr>prescaler = 0, cfg_tseg1 = 0, cfg_tseg2 = 0\<rparr> = None"
  by (simp add: CanGetSpeedConfig_def canTiming_def spec_entry_ok_def total_tq_def)

lemma CanGetSpeedConfig_loop_true:
  assumes "CanGetSpeedConfig_loop clk baud es out = Some (True, r)"
  shows "\<exists>e \<in> set es. cfg_tseg1 r = tseg1 e \<and> cfg_tseg2 r = tseg2 e
           \<and> (clk div 2) mod (unat baud * total_tq e) = 0
           \<and> unat baud * total_tq e \<noteq> 0
           \<and> prescaler r = of_nat ((clk div 2) div (unat baud * total_tq e))
           \<and> 0 < prescaler r \<and> prescaler r \<le> 1024"
  using assms
proof (induction es arbitrary: out)
  case Nil
  then show ?case by simp
next
  case (Cons x xs)
  then show ?case
    by (auto simp: Let_def split: if_splits)
qed




text \<open>
  Every clock below 1048576 kHz, at any rate, is inside the range of the amended
  claim.
\<close>

lemma CanGetSpeedConfig_quotient_fits_below_1GHz:
  assumes "CanGetSpeedConfig clk baud out = Some (True, r)" and "clk < 1048576"
  shows "(clk div 2) div (unat baud * 8) < 65536"
proof -
  from CanGetSpeedConfig_loop_true[OF assms(1)[unfolded CanGetSpeedConfig_def]]
  have b: "unat baud \<noteq> 0" by auto
  then have "8 \<le> unat baud * 8" by simp
  then have "(clk div 2) div (unat baud * 8) \<le> (clk div 2) div 8"
    by (rule div_le_mono2[rotated]) simp
  also from assms(2) have "(clk div 2) div 8 < 65536" by simp
  finally show ?thesis .
qed

section \<open>Starting the user program\<close>

lemma CpuStartUserProgram_invalid:
  "\<not> NvmVerifyChecksum env \<Longrightarrow> CpuStartUserProgram cfg env = (Returned, [Call_NvmVerifyChecksum])"
  by (simp add: CpuStartUserProgram_def)

lemma CpuStartUserProgram_veto:
  "NvmVerifyChecksum env \<Longrightarrow> BOOT_CPU_USER_PROGRAM_START_HOOK cfg > 0
   \<Longrightarrow> \<not> CpuUserProgramStartHook env
   \<Longrightarrow> CpuStartUserProgram cfg env
         = (Returned, [Call_NvmVerifyChecksum, Call_CpuUserProgramStartHook])"
  by (simp add: CpuStartUserProgram_def)

lemma CpuStartUserProgram_start:
  assumes "NvmVerifyChecksum env"
    and "BOOT_CPU_USER_PROGRAM_START_HOOK cfg > 0 \<longrightarrow> CpuUserProgramStartHook env"
  shows "CpuStartUserProgram cfg env =
     (Transferred (mem_word env (NvmGetUserProgBaseAddress env + 4)),
      [Call_NvmVerifyChecksum]
      @ (if BOOT_CPU_USER_PROGRAM_START_HOOK cfg > 0 then [Call_CpuUserProgramStartHook] else [])
      @ (if BOOT_COM_ENABLE cfg > 0 then [Call_ComFree] else [])
      @ [Call_TimerReset,
         Call_NvmGetUserProgBaseAddress,
         Write_SCB_VTOR (NvmGetUserProgBaseAddress env AND 0x1FFFFF80),
         Call_NvmGetUserProgBaseAddress,
         Call_CpuIrqEnable,
         Call_pProgResetHandler (mem_word env (NvmGetUserProgBaseAddress env + 4))])"
  using assms
  by (auto simp: CpuStartUserProgram_def Let_def CPU_USER_PROGRAM_STARTADDR_PTR_def
      CPU_USER_PROGRAM_VECTABLE_OFFSET_def)

text \<open>
  Claim C1, amended. When the checksum of the image is valid and the start hook does
  not veto (or is compiled out), \<^verbatim>\<open>CpuStartUserProgram\<close> performs its side effects
  in this order: it releases the communication interface (\<^verbatim>\<open>ComFree\<close>) where
  \<^verbatim>\<open>BOOT_COM_ENABLE\<close> is greater than 0, and skips that step where the
  communication interface is compiled out; it resets the timer; it writes the vector
  table base register; it enables the interrupts; and then it transfers control to
  the address read from base + 4, and does not return.
\<close>

theorem CpuStartUserProgram_order:
  assumes "NvmVerifyChecksum env"
    and "BOOT_CPU_USER_PROGRAM_START_HOOK cfg > 0 \<longrightarrow> CpuUserProgramStartHook env"
  shows "fst (CpuStartUserProgram cfg env)
           = Transferred (mem_word env (NvmGetUserProgBaseAddress env + 4))
         \<and> handoff_effects (snd (CpuStartUserProgram cfg env))
           = (if BOOT_COM_ENABLE cfg > 0 then [Call_ComFree] else [])
             @ [Call_TimerReset,
                Write_SCB_VTOR (NvmGetUserProgBaseAddress env AND 0x1FFFFF80),
                Call_CpuIrqEnable,
                Call_pProgResetHandler (mem_word env (NvmGetUserProgBaseAddress env + 4))]"
  by (simp add: CpuStartUserProgram_start[OF assms] handoff_effects_def)

theorem CpuStartUserProgram_order_witness:
  "handoff_effects (snd (CpuStartUserProgram
       \<lparr>BOOT_CPU_USER_PROGRAM_START_HOOK = 1, BOOT_COM_ENABLE = 1\<rparr>
       \<lparr>NvmVerifyChecksum = True, CpuUserProgramStartHook = True,
        NvmGetUserProgBaseAddress = 0x0C010000, mem_word = (\<lambda>a. 0x0C010201)\<rparr>))
     = [Call_ComFree, Call_TimerReset, Write_SCB_VTOR 0x0C010000, Call_CpuIrqEnable,
        Call_pProgResetHandler 0x0C010201]
   \<and> handoff_effects (snd (CpuStartUserProgram
       \<lparr>BOOT_CPU_USER_PROGRAM_START_HOOK = 0, BOOT_COM_ENABLE = 0\<rparr>
       \<lparr>NvmVerifyChecksum = True, CpuUserProgramStartHook = False,
        NvmGetUserProgBaseAddress = 0x0C010000, mem_word = (\<lambda>a. 0x0C010201)\<rparr>))
     = [Call_TimerReset, Write_SCB_VTOR 0x0C010000, Call_CpuIrqEnable,
        Call_pProgResetHandler 0x0C010201]"
  using CpuStartUserProgram_order[of
       "\<lparr>NvmVerifyChecksum = True, CpuUserProgramStartHook = True,
        NvmGetUserProgBaseAddress = 0x0C010000, mem_word = (\<lambda>a. 0x0C010201)\<rparr>"
       "\<lparr>BOOT_CPU_USER_PROGRAM_START_HOOK = 1, BOOT_COM_ENABLE = 1\<rparr>"]
     CpuStartUserProgram_order[of
       "\<lparr>NvmVerifyChecksum = True, CpuUserProgramStartHook = False,
        NvmGetUserProgBaseAddress = 0x0C010000, mem_word = (\<lambda>a. 0x0C010201)\<rparr>"
       "\<lparr>BOOT_CPU_USER_PROGRAM_START_HOOK = 0, BOOT_COM_ENABLE = 0\<rparr>"]
  by simp

text \<open>
  The claim as it was stated fails in a build without communication interface
  (\<^verbatim>\<open>BOOT_COM_ENABLE\<close> is 0): the checksum is valid, there is no hook, and the
  first side effect is the reset of the timer; \<^verbatim>\<open>ComFree\<close> is not called.
\<close>

theorem CpuStartUserProgram_order_counterexample:
  "NvmVerifyChecksum \<lparr>NvmVerifyChecksum = True, CpuUserProgramStartHook = True,
        NvmGetUserProgBaseAddress = 0x0C010000, mem_word = (\<lambda>a. 0x0C010201)\<rparr>
   \<and> BOOT_CPU_USER_PROGRAM_START_HOOK \<lparr>BOOT_CPU_USER_PROGRAM_START_HOOK = 0, BOOT_COM_ENABLE = 0\<rparr> = 0
   \<and> CpuStartUserProgram
       \<lparr>BOOT_CPU_USER_PROGRAM_START_HOOK = 0, BOOT_COM_ENABLE = 0\<rparr>
       \<lparr>NvmVerifyChecksum = True, CpuUserProgramStartHook = True,
        NvmGetUserProgBaseAddress = 0x0C010000, mem_word = (\<lambda>a. 0x0C010201)\<rparr>
     = (Transferred 0x0C010201,
        [Call_NvmVerifyChecksum, Call_TimerReset, Call_NvmGetUserProgBaseAddress,
         Write_SCB_VTOR 0x0C010000, Call_NvmGetUserProgBaseAddress, Call_CpuIrqEnable,
         Call_pProgResetHandler 0x0C010201])
   \<and> handoff_effects (snd (CpuStartUserProgram
       \<lparr>BOOT_CPU_USER_PROGRAM_START_HOOK = 0, BOOT_COM_ENABLE = 0\<rparr>
       \<lparr>NvmVerifyChecksum = True, CpuUserProgramStartHook = True,
        NvmGetUserProgBaseAddress = 0x0C010000, mem_word = (\<lambda>a. 0x0C010201)\<rparr>))
     \<noteq> [Call_ComFree, Call_TimerReset, Write_SCB_VTOR 0x0C010000, Call_CpuIrqEnable,
        Call_pProgResetHandler 0x0C010201]"
  by (simp add: CpuStartUserProgram_def handoff_effects_def Let_def
      CPU_USER_PROGRAM_STARTADDR_PTR_def CPU_USER_PROGRAM_VECTABLE_OFFSET_def)

text \<open>
  Claim C2. Whatever the configuration and the state of the collaborators, if
  \<^verbatim>\<open>NvmVerifyChecksum\<close> returns false then \<^verbatim>\<open>CpuStartUserProgram\<close> returns to its
  caller and has done nothing but ask for the checksum: no release of the
  communication interface, no reset of the timer, no write to the vector table base
  register, no enabling of interrupts and no transfer of control.
\<close>

theorem CpuStartUserProgram_invalid_no_effect:
  assumes "NvmVerifyChecksum env = False"
  shows "CpuStartUserProgram cfg env = (Returned, [Call_NvmVerifyChecksum])
         \<and> handoff_effects (snd (CpuStartUserProgram cfg env)) = []"
  using assms by (simp add: CpuStartUserProgram_invalid handoff_effects_def)

theorem CpuStartUserProgram_invalid_no_effect_witness:
  "CpuStartUserProgram
       \<lparr>BOOT_CPU_USER_PROGRAM_START_HOOK = 1, BOOT_COM_ENABLE = 1\<rparr>
       \<lparr>NvmVerifyChecksum = False, CpuUserProgramStartHook = True,
        NvmGetUserProgBaseAddress = 0x0C010000, mem_word = (\<lambda>a. 0x0C010201)\<rparr>
     = (Returned, [Call_NvmVerifyChecksum])"
  using CpuStartUserProgram_invalid_no_effect[of
       "\<lparr>NvmVerifyChecksum = False, CpuUserProgramStartHook = True,
        NvmGetUserProgBaseAddress = 0x0C010000, mem_word = (\<lambda>a. 0x0C010201)\<rparr>"
       "\<lparr>BOOT_CPU_USER_PROGRAM_START_HOOK = 1, BOOT_COM_ENABLE = 1\<rparr>"]
  by simp

lemma vtor_mask_bits: "bit (0x1FFFFF80 :: blt_int32u) n \<longleftrightarrow> 7 \<le> n \<and> n < 29"
proof -
  have e: "(0x1FFFFF80 :: blt_int32u) = push_bit 7 (mask 22)"
   by (simp add: mask_eq_exp_minus_1)
  have "bit (push_bit 7 (mask 22 :: blt_int32u)) n \<longleftrightarrow> 7 \<le> n \<and> n < 29"
    unfolding bit_push_bit_iff bit_mask_iff by (auto simp: possible_bit_word)
  then show ?thesis by (simp only: e)
qed

lemma vtor_mask_low: "((v :: blt_int32u) AND 0x1FFFFF80) AND 0x7F = 0"
  by (simp add: and.assoc)

lemma vtor_mask_window: "(v :: blt_int32u) AND 0x1FFFFF80 < 0x20000000"
proof -
  have "v AND 0x1FFFFF80 \<le> 0x1FFFFF80" by (rule word_and_le1)
  then show ?thesis by (simp add: word_le_nat_alt word_less_nat_alt)
qed

lemma CpuStartUserProgram_vtor_writes:
  assumes "Write_SCB_VTOR v \<in> set (snd (CpuStartUserProgram cfg env))"
  shows "v = NvmGetUserProgBaseAddress env AND 0x1FFFFF80"
  using assms
  by (auto simp: CpuStartUserProgram_def Let_def CPU_USER_PROGRAM_VECTABLE_OFFSET_def
      split: if_splits)

text \<open>
  Claim C5, amended. The value \<^verbatim>\<open>CpuStartUserProgram\<close> writes to the vector table
  base register is the base address of the user program and-ed with
  \<^verbatim>\<open>0x1FFFFF80\<close>: its lowest 7 bits are zero, it lies inside a window of 29 bits
  (below \<^verbatim>\<open>0x20000000\<close>), and bits 7 to 28 are those of the base address.
\<close>

theorem CpuStartUserProgram_vtor_value:
  assumes "Write_SCB_VTOR v \<in> set (snd (CpuStartUserProgram cfg env))"
  shows "v = NvmGetUserProgBaseAddress env AND 0x1FFFFF80
         \<and> v AND 0x7F = 0
         \<and> v < 0x20000000
         \<and> (\<forall>n. bit v n \<longleftrightarrow> bit (NvmGetUserProgBaseAddress env) n \<and> 7 \<le> n \<and> n < 29)"
proof -
  from assms have v: "v = NvmGetUserProgBaseAddress env AND 0x1FFFFF80"
    by (rule CpuStartUserProgram_vtor_writes)
  have "\<forall>n. bit v n \<longleftrightarrow> bit (NvmGetUserProgBaseAddress env) n \<and> 7 \<le> n \<and> n < 29"
    unfolding v bit_and_iff vtor_mask_bits by simp
  with v vtor_mask_low vtor_mask_window show ?thesis by simp
qed

theorem CpuStartUserProgram_vtor_value_witness:
  "Write_SCB_VTOR 0x0C010000 \<in> set (snd (CpuStartUserProgram
       \<lparr>BOOT_CPU_USER_PROGRAM_START_HOOK = 1, BOOT_COM_ENABLE = 1\<rparr>
       \<lparr>NvmVerifyChecksum = True, CpuUserProgramStartHook = True,
        NvmGetUserProgBaseAddress = 0x0C01007F, mem_word = (\<lambda>a. 0x0C010201)\<rparr>))
   \<and> (0x0C010000 :: blt_int32u) = 0x0C01007F AND 0x1FFFFF80
   \<and> (0x0C010000 :: blt_int32u) AND 0x7F = 0
   \<and> (0x0C010000 :: blt_int32u) < 0x20000000"
proof -
  have m: "Write_SCB_VTOR 0x0C010000 \<in> set (snd (CpuStartUserProgram
       \<lparr>BOOT_CPU_USER_PROGRAM_START_HOOK = 1, BOOT_COM_ENABLE = 1\<rparr>
       \<lparr>NvmVerifyChecksum = True, CpuUserProgramStartHook = True,
        NvmGetUserProgBaseAddress = 0x0C01007F, mem_word = (\<lambda>a. 0x0C010201)\<rparr>))"
    by (simp add: CpuStartUserProgram_def Let_def CPU_USER_PROGRAM_VECTABLE_OFFSET_def
        CPU_USER_PROGRAM_STARTADDR_PTR_def)
  from CpuStartUserProgram_vtor_value[OF m] m show ?thesis by simp
qed

text \<open>
  The claim as it was stated, with a window of 21 bits, fails: for the base address
  \<^verbatim>\<open>0x0C010000\<close> the value written is \<^verbatim>\<open>0x0C010000\<close> itself, which is not below
  \<open>2 ^ 21\<close> and is not the base address under the mask of the specification.
\<close>

lemma spec_vtor_mask_value: "spec_vtor_mask = 0x001FFF80"
  by (simp add: spec_vtor_mask_def mask_eq_exp_minus_1)

theorem CpuStartUserProgram_vtor_value_counterexample:
  "Write_SCB_VTOR 0x0C010000 \<in> set (snd (CpuStartUserProgram
       \<lparr>BOOT_CPU_USER_PROGRAM_START_HOOK = 0, BOOT_COM_ENABLE = 1\<rparr>
       \<lparr>NvmVerifyChecksum = True, CpuUserProgramStartHook = True,
        NvmGetUserProgBaseAddress = 0x0C010000, mem_word = (\<lambda>a. 0x0C010201)\<rparr>))
   \<and> (0x0C010000 :: blt_int32u) AND spec_vtor_mask = 0x00010000
   \<and> (0x0C010000 :: blt_int32u) \<noteq> 0x0C010000 AND spec_vtor_mask
   \<and> \<not> (0x0C010000 :: blt_int32u) < 2 ^ 21"
  by (simp add: CpuStartUserProgram_def Let_def CPU_USER_PROGRAM_VECTABLE_OFFSET_def
        CPU_USER_PROGRAM_STARTADDR_PTR_def spec_vtor_mask_value)

section \<open>Copying and setting memory\<close>

lemma unat_pred_word16: "(len :: blt_int16u) > 0 \<Longrightarrow> unat (len - 1) + 1 = unat len"
  by (simp add: unat_minus_one word_gt_0 unat_gt_0)

lemma CopService_calls_CopService [simp]:
  "CopService_calls (CopService s) = CopService_calls s + 1"
  by (simp add: CopService_def)

lemma CpuMemCopy_loop_calls:
  "CopService_calls (CpuMemCopy_loop to from len s) = CopService_calls s + unat len"
proof (induction to "from" len s rule: CpuMemCopy_loop.induct)
  case (1 to "from" len s)
  show ?case
  proof (cases "len > 0")
    case True
    from "1.IH"[OF True] unat_pred_word16[OF True] True show ?thesis
      by (subst CpuMemCopy_loop.simps) simp
  next
    case False
    then have "len = 0" by (simp add: word_gt_0)
    then show ?thesis by (subst CpuMemCopy_loop.simps) simp
  qed
qed

lemma CpuMemSet_loop_calls:
  "CopService_calls (CpuMemSet_loop to val len s) = CopService_calls s + unat len"
proof (induction to val len s rule: CpuMemSet_loop.induct)
  case (1 to val len s)
  show ?case
  proof (cases "len > 0")
    case True
    from "1.IH"[OF True] unat_pred_word16[OF True] True show ?thesis
      by (subst CpuMemSet_loop.simps) simp
  next
    case False
    then have "len = 0" by (simp add: word_gt_0)
    then show ?thesis by (subst CpuMemSet_loop.simps) simp
  qed
qed

text \<open>
  Claim C7. For every length \<^verbatim>\<open>len\<close>, \<^verbatim>\<open>CpuMemCopy\<close> and \<^verbatim>\<open>CpuMemSet\<close> call
  the watchdog service \<^verbatim>\<open>CopService\<close> exactly \<^verbatim>\<open>len\<close> times, once after each byte
  copied or set, and not at all when the length is 0.
\<close>

theorem CpuMem_CopService_calls:
  "CopService_calls (CpuMemCopy dest src len s) = CopService_calls s + unat len
   \<and> CopService_calls (CpuMemSet dest val len s) = CopService_calls s + unat len"
  by (simp add: CpuMemCopy_def CpuMemSet_def CpuMemCopy_loop_calls CpuMemSet_loop_calls)

text \<open>The lengths 0, 1 and 65535 in particular.\<close>

lemma CpuMem_CopService_calls_boundaries:
  "CopService_calls (CpuMemCopy dest src 0 s) = CopService_calls s
   \<and> CopService_calls (CpuMemCopy dest src 1 s) = CopService_calls s + 1
   \<and> CopService_calls (CpuMemCopy dest src 65535 s) = CopService_calls s + 65535
   \<and> CopService_calls (CpuMemSet dest val 0 s) = CopService_calls s
   \<and> CopService_calls (CpuMemSet dest val 1 s) = CopService_calls s + 1
   \<and> CopService_calls (CpuMemSet dest val 65535 s) = CopService_calls s + 65535"
  by (simp add: CpuMemCopy_def CpuMemSet_def CpuMemCopy_loop_calls CpuMemSet_loop_calls)

section \<open>Receiving a packet\<close>

lemma id_type_bit: "(rxMsgId :: blt_int32u) AND 0x80000000 = 0 \<longleftrightarrow> \<not> bit rxMsgId 31"
proof -
  have "(0x80000000 :: blt_int32u) = 2 ^ 31" by simp
  then show ?thesis by (simp only: and_exp_eq_0_iff_not_bit)
qed

lemma id_type_bit_cleared: "(rxMsgId :: blt_int32u) AND NOT 0x80000000 = take_bit 31 rxMsgId"
proof -
  have "NOT (0x80000000 :: blt_int32u) = mask 31" by (simp add: mask_eq_exp_minus_1)
  then show ?thesis by (simp only: take_bit_eq_mask)
qed

lemma take_bit_31_id: "\<not> bit (rxMsgId :: blt_int32u) 31 \<Longrightarrow> take_bit 31 rxMsgId = rxMsgId"
proof (rule bit_word_eqI)
  fix n assume nb: "\<not> bit rxMsgId 31" and n: "n < LENGTH(32)"
  show "bit (take_bit 31 rxMsgId) n \<longleftrightarrow> bit rxMsgId n"
  proof (cases "n = 31")
    case True
    with nb show ?thesis by (simp add: bit_take_bit_iff)
  next
    case False
    with n have "n < 31" by simp
    then show ?thesis by (simp add: bit_take_bit_iff)
  qed
qed

lemma packetIdMatches_spec:
  "(if BOOT_COM_CAN_RX_MSG_ID cfg AND 0x80000000 = 0
    then StdId msg = BOOT_COM_CAN_RX_MSG_ID cfg \<and> IDE msg = CAN_ID_STD cfg
    else ExtId msg = (BOOT_COM_CAN_RX_MSG_ID cfg AND NOT 0x80000000) \<and> IDE msg = CAN_ID_EXT cfg)
   \<longleftrightarrow> frame_matches_filter cfg msg"
  unfolding id_type_bit id_type_bit_cleared frame_matches_filter_def filter_extended_def
    filter_identifier_def
  by (auto simp: take_bit_31_id)

lemma CanReceivePacket_mismatch:
  "\<not> frame_matches_filter cfg msg \<Longrightarrow> CanReceivePacket cfg (Some msg) data len = Some (False, data, len)"
  unfolding CanReceivePacket_def Let_def option.case packetIdMatches_spec by simp

lemma CanReceivePacket_match:
  "frame_matches_filter cfg msg \<Longrightarrow> CanReceivePacket cfg (Some msg) data len =
     (case CanReceivePacket_copy 0 msg data of
        None \<Rightarrow> None
      | Some data' \<Rightarrow> Some (True, data', ucast (DLC msg)))"
  unfolding CanReceivePacket_def Let_def option.case packetIdMatches_spec by simp

text \<open>
  The copy loop ends for every data length code up to 255, so that
  \<^verbatim>\<open>CanReceivePacket\<close> returns for every frame the controller can deliver.
\<close>

lemma unat_ucast_byteIdx: "unat (ucast (byteIdx :: blt_int8u) :: blt_int32u) = unat byteIdx"
  by (simp add: unsigned_ucast_eq take_bit_nat_eq_self unsigned_less[of byteIdx, THEN less_trans])

lemma CanReceivePacket_copy_returns_from:
  assumes "unat (DLC msg) \<le> 255" and "unat byteIdx \<le> unat (DLC msg)"
    and "n = unat (DLC msg) - unat byteIdx"
  shows "\<exists>d. CanReceivePacket_copy byteIdx msg data = Some d"
  using assms(2,3)
proof (induction n arbitrary: byteIdx data)
  case 0
  then have "\<not> (ucast byteIdx :: blt_int32u) < DLC msg"
    by (simp add: word_less_nat_alt unat_ucast_byteIdx)
  then show ?case
    by (subst CanReceivePacket_copy.simps) simp
next
  case (Suc n)
  then have lt: "unat byteIdx < unat (DLC msg)" by simp
  then have c: "(ucast byteIdx :: blt_int32u) < DLC msg"
    by (simp add: word_less_nat_alt unat_ucast_byteIdx)
  from lt assms(1) have "unat byteIdx < 255" by simp
  then have s: "unat (byteIdx + 1) = unat byteIdx + 1"
    by (simp add: unat_word_ariths)
  with lt Suc.prems have "unat (byteIdx + 1) \<le> unat (DLC msg)"
    and "n = unat (DLC msg) - unat (byteIdx + 1)"
    by simp_all
  then have ih: "\<exists>d. CanReceivePacket_copy (byteIdx + 1) msg
                       (data(unat byteIdx := Data msg (unat byteIdx))) = Some d"
    by (rule Suc.IH)
  show ?case
    by (subst CanReceivePacket_copy.simps) (simp only: c if_True ih)
qed

lemma CanReceivePacket_returns:
  assumes "unat (DLC msg) \<le> 255"
  shows "CanReceivePacket cfg (Some msg) data len \<noteq> None"
proof (cases "frame_matches_filter cfg msg")
  case True
  from CanReceivePacket_copy_returns_from[OF assms, of 0 _ data]
  obtain d where "CanReceivePacket_copy 0 msg data = Some d" by auto
  with True show ?thesis by (simp add: CanReceivePacket_match)
next
  case False
  then show ?thesis by (simp add: CanReceivePacket_mismatch)
qed

text \<open>
  Claim C6. For every pending frame, \<^verbatim>\<open>CanReceivePacket\<close> returns true with a
  payload only when the identifier and the identifier width of the frame (standard or
  extended, selected by the reserved high bit \<^verbatim>\<open>0x80000000\<close> of the configured
  receive identifier) both match the configured receive filter; a frame whose
  identifier or width does not match is never returned: the function returns false
  and leaves the buffers of the caller as they were.
\<close>

theorem CanReceivePacket_filter:
  "(CanReceivePacket cfg (Some msg) data len = Some (True, data', len')
      \<longrightarrow> frame_matches_filter cfg msg)
   \<and> (\<not> frame_matches_filter cfg msg
      \<longrightarrow> CanReceivePacket cfg (Some msg) data len = Some (False, data, len))"
proof (cases "frame_matches_filter cfg msg")
  case True
  then show ?thesis by simp
next
  case False
  then show ?thesis by (simp add: CanReceivePacket_mismatch)
qed

text \<open>
  Claim C9. Whenever \<^verbatim>\<open>CanReceivePacket\<close> returns false, because no frame is
  pending or because the pending frame does not match the filter, the buffers
  \<^verbatim>\<open>data\<close> and \<^verbatim>\<open>len\<close> of the caller are left as they were.
\<close>

theorem CanReceivePacket_false_unmodified:
  assumes "CanReceivePacket cfg rx data len = Some (False, data', len')"
  shows "data' = data \<and> len' = len"
proof (cases rx)
  case None
  with assms show ?thesis by (simp add: CanReceivePacket_def)
next
  case (Some msg)
  show ?thesis
  proof (cases "frame_matches_filter cfg msg")
    case True
    from assms show ?thesis
      unfolding Some CanReceivePacket_match[OF True]
      by (simp split: option.splits)
  next
    case False
    from assms show ?thesis
      unfolding Some CanReceivePacket_mismatch[OF False] by simp
  qed
qed

lemma rx_example_match:
  "CanReceivePacket \<lparr>BOOT_COM_CAN_RX_MSG_ID = 0x667, CAN_ID_STD = 0, CAN_ID_EXT = 4\<rparr>
     (Some \<lparr>StdId = 0x667, ExtId = 0, IDE = 0, DLC = 2, Data = (\<lambda>i. 0)(0 := 0xFF, 1 := 0x01)\<rparr>)
     (\<lambda>i. 9) 0
   = Some (True, (\<lambda>i. 9)(0 := 0xFF, 1 := 0x01), 2)"
  by (simp add: CanReceivePacket_def Let_def CanReceivePacket_copy.simps)

lemma rx_example_mismatch:
  "\<not> frame_matches_filter \<lparr>BOOT_COM_CAN_RX_MSG_ID = 0x80000667, CAN_ID_STD = 0, CAN_ID_EXT = 4\<rparr>
     \<lparr>StdId = 0x667, ExtId = 0, IDE = 0, DLC = 2, Data = (\<lambda>i. 0)(0 := 0xFF, 1 := 0x01)\<rparr>"
  by (simp add: frame_matches_filter_def filter_extended_def filter_identifier_def)

theorem CanReceivePacket_filter_witness:
  "CanReceivePacket \<lparr>BOOT_COM_CAN_RX_MSG_ID = 0x667, CAN_ID_STD = 0, CAN_ID_EXT = 4\<rparr>
     (Some \<lparr>StdId = 0x667, ExtId = 0, IDE = 0, DLC = 2, Data = (\<lambda>i. 0)(0 := 0xFF, 1 := 0x01)\<rparr>)
     (\<lambda>i. 9) 0
     = Some (True, (\<lambda>i. 9)(0 := 0xFF, 1 := 0x01), 2)
   \<and> frame_matches_filter \<lparr>BOOT_COM_CAN_RX_MSG_ID = 0x667, CAN_ID_STD = 0, CAN_ID_EXT = 4\<rparr>
       \<lparr>StdId = 0x667, ExtId = 0, IDE = 0, DLC = 2, Data = (\<lambda>i. 0)(0 := 0xFF, 1 := 0x01)\<rparr>
   \<and> \<not> frame_matches_filter \<lparr>BOOT_COM_CAN_RX_MSG_ID = 0x80000667, CAN_ID_STD = 0, CAN_ID_EXT = 4\<rparr>
       \<lparr>StdId = 0x667, ExtId = 0, IDE = 0, DLC = 2, Data = (\<lambda>i. 0)(0 := 0xFF, 1 := 0x01)\<rparr>
   \<and> CanReceivePacket \<lparr>BOOT_COM_CAN_RX_MSG_ID = 0x80000667, CAN_ID_STD = 0, CAN_ID_EXT = 4\<rparr>
     (Some \<lparr>StdId = 0x667, ExtId = 0, IDE = 0, DLC = 2, Data = (\<lambda>i. 0)(0 := 0xFF, 1 := 0x01)\<rparr>)
     (\<lambda>i. 9) 0
     = Some (False, (\<lambda>i. 9), 0)"
proof -
  note t1 = CanReceivePacket_filter[of
     "\<lparr>BOOT_COM_CAN_RX_MSG_ID = 0x667, CAN_ID_STD = 0, CAN_ID_EXT = 4\<rparr>"
     "\<lparr>StdId = 0x667, ExtId = 0, IDE = 0, DLC = 2, Data = (\<lambda>i. 0)(0 := 0xFF, 1 := 0x01)\<rparr>"
     "\<lambda>i. 9" 0 "(\<lambda>i. 9)(0 := 0xFF, 1 := 0x01)" 2, THEN conjunct1, rule_format,
     OF rx_example_match]
  note t2 = CanReceivePacket_filter[of
     "\<lparr>BOOT_COM_CAN_RX_MSG_ID = 0x80000667, CAN_ID_STD = 0, CAN_ID_EXT = 4\<rparr>"
     "\<lparr>StdId = 0x667, ExtId = 0, IDE = 0, DLC = 2, Data = (\<lambda>i. 0)(0 := 0xFF, 1 := 0x01)\<rparr>"
     "\<lambda>i. 9" 0 "\<lambda>i. 9" 0, THEN conjunct2, rule_format,
     OF rx_example_mismatch]
  from rx_example_match t1 rx_example_mismatch t2 show ?thesis by (intro conjI)
qed

theorem CanReceivePacket_false_unmodified_witness:
  "\<exists>d l. CanReceivePacket \<lparr>BOOT_COM_CAN_RX_MSG_ID = 0x667, CAN_ID_STD = 0, CAN_ID_EXT = 4\<rparr>
     (Some \<lparr>StdId = 0x123, ExtId = 0, IDE = 0, DLC = 2, Data = (\<lambda>i. 0)(0 := 0xFF, 1 := 0x01)\<rparr>)
     (\<lambda>i. 9) 5 = Some (False, d, l)
     \<and> d = (\<lambda>i. 9) \<and> l = 5"
proof -
  have e: "CanReceivePacket \<lparr>BOOT_COM_CAN_RX_MSG_ID = 0x667, CAN_ID_STD = 0, CAN_ID_EXT = 4\<rparr>
     (Some \<lparr>StdId = 0x123, ExtId = 0, IDE = 0, DLC = 2, Data = (\<lambda>i. 0)(0 := 0xFF, 1 := 0x01)\<rparr>)
     (\<lambda>i. 9) 5 = Some (False, (\<lambda>i. 9), 5)"
    by (simp add: CanReceivePacket_def Let_def)
  from CanReceivePacket_false_unmodified[OF e] e show ?thesis by blast
qed

text \<open>
  A matching frame with a data length code above 8 is copied and returned as well: the
  loop is bounded by \<^verbatim>\<open>DLC\<close> alone. Here 9 bytes are copied and the length
  returned is 9.
\<close>

lemma rx_example_long_frame:
  "CanReceivePacket \<lparr>BOOT_COM_CAN_RX_MSG_ID = 0x667, CAN_ID_STD = 0, CAN_ID_EXT = 4\<rparr>
     (Some \<lparr>StdId = 0x667, ExtId = 0, IDE = 0, DLC = 9, Data = (\<lambda>i. 7)\<rparr>)
     (\<lambda>i. 9) 0
   = Some (True, (\<lambda>i. 9)(0 := 7, 1 := 7, 2 := 7, 3 := 7, 4 := 7, 5 := 7, 6 := 7, 7 := 7, 8 := 7), 9)"
  by (simp add: CanReceivePacket_def Let_def CanReceivePacket_copy.simps)

end
